theory Spec2Isabelle
  imports Complex_Main
begin

section \<open>The data of server.js\<close>

text \<open>
  The backend keeps one global array \<open>buses\<close> of bus objects. JavaScript arrays hold
  references: \<open>buses.find\<close> hands out the object itself, the resolvers write through it, and
  \<open>pubsub.publish\<close> is given that same object. The array is only ever extended by
  \<open>push\<close>; no element is removed or replaced, \<open>buses\<close> is never reassigned, and the
  \<open>coords\<close> object of a bus is created with the bus and never shared or replaced. So the
  identity of a bus object is modelled by its position in the array (\<open>ref\<close>), and a
  reference is read through the array as it is at the time of reading.

  GraphQL \<open>Float\<close> values and the coordinates are IEEE doubles in the source; they are
  modelled as reals. The draws of \<open>Math.random()\<close> are inputs. No result below depends on
  the arithmetic of coordinates. The length of a JavaScript array stays below \<open>2^32\<close>; the
  model does not bound it.
\<close>

type_synonym ref = nat

record coordinates =
  lat :: real
  lng :: real

record bus =
  bus_id :: string
  number :: string
  route :: string
  capacity :: "int option"
  coords :: coordinates

definition BUS_LOC_TOPIC :: string where
  "BUS_LOC_TOPIC = ''BUS_LOCATION''"

definition JSON_SERVER_PORT :: nat where
  "JSON_SERVER_PORT = 9002"

text \<open>The payload \<open>{ busLocationUpdated: bus }\<close>: a wrapper around the reference.\<close>

datatype event = BusLocationUpdated ref

text \<open>
  A call \<open>pubsub.publish(topic, payload)\<close>. No resolver reads what \<open>publish\<close> returns, so a
  resolver is modelled as returning the calls it makes, in order.
\<close>

datatype call = Publish string event

text \<open>What a resolver or handler throws.\<close>

datatype error = TypeError | Error string | FetchRejected

definition buses_init :: "bus list" where
  "buses_init =
     [\<lparr>bus_id = ''1'', number = ''MH12AB1234'', route = ''A-B'', capacity = Some 40,
       coords = \<lparr>lat = 19.07, lng = 72.87\<rparr>\<rparr>]"

subsection \<open>\<open>String(n)\<close> on an array length\<close>

definition digit_char :: "nat \<Rightarrow> char" where
  "digit_char d = ''0123456789'' ! d"

fun String_nat :: "nat \<Rightarrow> string" where
  "String_nat n =
     (if n < 10 then [digit_char n] else String_nat (n div 10) @ [digit_char (n mod 10)])"

declare String_nat.simps [simp del]

text \<open>Reading a decimal numeral back; only used to show that \<open>String_nat\<close> is injective.\<close>

definition digit_val :: "char \<Rightarrow> nat" where
  "digit_val c = of_char c - 48"

definition decimal_val :: "string \<Rightarrow> nat" where
  "decimal_val s = foldl (\<lambda>acc c. 10 * acc + digit_val c) 0 s"

subsection \<open>\<open>buses.find(b => b.id === String(id))\<close>\<close>

text \<open>
  The first bus that satisfies the predicate, as a reference; \<open>None\<close> is \<open>undefined\<close>.
  The GraphQL argument \<open>id: ID!\<close> reaches the resolver as a string, on which \<open>String\<close> is
  the identity.
\<close>

fun find_bus :: "(bus \<Rightarrow> bool) \<Rightarrow> bus list \<Rightarrow> ref option" where
  "find_bus P [] = None"
| "find_bus P (b # bs) = (if P b then Some 0 else map_option Suc (find_bus P bs))"

definition set_lat :: "ref \<Rightarrow> real \<Rightarrow> bus list \<Rightarrow> bus list" where
  "set_lat i v bs = bs[i := (bs ! i)\<lparr>coords := (coords (bs ! i))\<lparr>lat := v\<rparr>\<rparr>]"

definition set_lng :: "ref \<Rightarrow> real \<Rightarrow> bus list \<Rightarrow> bus list" where
  "set_lng i v bs = bs[i := (bs ! i)\<lparr>coords := (coords (bs ! i))\<lparr>lng := v\<rparr>\<rparr>]"

section \<open>The resolvers\<close>

text \<open>
  Each resolver takes the array \<open>buses\<close> and returns its result, the array afterwards and
  the \<open>publish\<close> calls it made.
\<close>

definition addBus :: "string \<Rightarrow> string \<Rightarrow> int option \<Rightarrow> bus list \<Rightarrow> ref \<times> bus list \<times> call list" where
  "addBus num rte cap bs =
     (let b = \<lparr>bus_id = String_nat (length bs + 1), number = num, route = rte, capacity = cap,
                coords = \<lparr>lat = 0, lng = 0\<rparr>\<rparr>;
          bs' = bs @ [b]
      in (length bs, bs', []))"

definition updateBusLocation ::
    "string \<Rightarrow> real \<Rightarrow> real \<Rightarrow> bus list \<Rightarrow> ref option \<times> bus list \<times> call list" where
  "updateBusLocation ident la lo bs =
     (case find_bus (\<lambda>b. bus_id b = ident) bs of
        None \<Rightarrow> (None, bs, [])
      | Some i \<Rightarrow>
          (let bs1 = set_lat i la bs;
               bs2 = set_lng i lo bs1
           in (Some i, bs2, [Publish BUS_LOC_TOPIC (BusLocationUpdated i)])))"

subsection \<open>\<open>addReview\<close>\<close>

text \<open>
  \<open>fetch\<close> is the environment: it either rejects (no response at all) or resolves with a
  response, of which the resolver reads \<open>status\<close> and \<open>json()\<close>. The record store is the
  json-server started by the same process, which answers in JSON; a body that does not
  parse is not modelled. \<open>Date.now()\<close> is an input.
\<close>

record new_review =
  name :: string
  message :: string
  timestamp :: int

record review = new_review +
  review_id :: string

record fetch_request =
  url :: string
  http_method :: string
  content_type :: string
  body :: new_review

record response =
  status :: nat
  json :: review

datatype fetch_outcome = Rejected | Resolved response

text \<open>The POST request the resolver sends: \<open>body\<close> is the review before \<open>JSON.stringify\<close>.\<close>

definition reviews_post :: "new_review \<Rightarrow> fetch_request" where
  "reviews_post newReview =
     \<lparr>url = ''http://localhost:'' @ String_nat JSON_SERVER_PORT @ ''/reviews'',
      http_method = ''POST'', content_type = ''application/json'', body = newReview\<rparr>"

definition addReview ::
    "(fetch_request \<Rightarrow> fetch_outcome) \<Rightarrow> int \<Rightarrow> string \<Rightarrow> string \<Rightarrow> (error + review) \<times> call list" where
  "addReview fetch now nm msg =
     (let newReview = \<lparr>name = nm, message = msg, timestamp = now\<rparr> in
      case fetch (reviews_post newReview) of
        Rejected \<Rightarrow> (Inl FetchRejected, [])
      | Resolved r \<Rightarrow>
          if status r \<noteq> 201 \<and> status r \<noteq> 200
          then (Inl (Error (''Backend failed to save data. Status: '' @ String_nat (status r))), [])
          else (Inr (json r), []))"

subsection \<open>The REST handler of \<open>/simulate-location\<close>\<close>

text \<open>
  The input is \<open>req.body\<close>: \<open>None\<close> when it is \<open>undefined\<close> (no body parser ran for the
  request; destructuring it throws a TypeError; server.js mounts \<open>express.json()\<close> under
  \<open>GRAPHQL_PATH\<close> only), otherwise \<open>Some s\<close> with \<open>s\<close> the value of
  \<open>String(id)\<close> for the body's \<open>id\<close> property, which is all the handler reads of it.
  \<open>res.json\<close> serialises its argument at once, so the reply holds a copy of the bus.
\<close>

datatype payload = ErrorBody string | BusBody bus

datatype http_result = Thrown error | Json nat payload

definition simulate_location ::
    "string option \<Rightarrow> real \<Rightarrow> real \<Rightarrow> bus list \<Rightarrow> http_result \<times> bus list \<times> call list" where
  "simulate_location req_body r1 r2 bs =
     (case req_body of
        None \<Rightarrow> (Thrown TypeError, bs, [])
      | Some ident \<Rightarrow>
          (case find_bus (\<lambda>b. bus_id b = ident) bs of
             None \<Rightarrow> (Json 404 (ErrorBody ''bus not found''), bs, [])
           | Some i \<Rightarrow>
               (let bs1 = set_lat i (lat (coords (bs ! i)) + (r1 - 0.5) * 0.001) bs;
                    bs2 = set_lng i (lng (coords (bs1 ! i)) + (r2 - 0.5) * 0.001) bs1
                in (Json 200 (BusBody (bs2 ! i)), bs2,
                    [Publish BUS_LOC_TOPIC (BusLocationUpdated i)]))))"

section \<open>The topic registry and the delivery channels\<close>

text \<open>
  \<open>pubsub\<close> is an instance of the \<open>PubSub\<close> class of the package graphql-subscriptions,
  whose code is not part of the repository. The registry, the subscriptions and their
  channels are therefore modelled from the spec (sections 3, 4.1 and 4.2), with the
  unbounded channel of policy (a).
\<close>

text \<open>Modelled from the spec: a subscription is an opaque handle, unique for its lifetime,
  that belongs to exactly one topic (section 3); the \<open>PubSub\<close> class is missing.\<close>

record subscription =
  sub_handle :: nat
  sub_topic :: string

text \<open>Modelled from the spec: the registry maps a topic to the set of subscriptions
  registered under it; every subscription owns one delivery channel, unbounded (section
  4.2, policy (a)); handles are handed out in turn so that each one is new. The \<open>PubSub\<close>
  class is missing.\<close>

record 'e pubsub_state =
  registry :: "string \<Rightarrow> nat set"
  channel :: "nat \<Rightarrow> 'e list"
  next_handle :: nat

text \<open>Modelled from the spec: \<open>new PubSub()\<close>, with no topic and no subscription yet.\<close>

definition new_PubSub :: "'e pubsub_state" where
  "new_PubSub = \<lparr>registry = (\<lambda>t. {}), channel = (\<lambda>h. []), next_handle = 0\<rparr>"

text \<open>Modelled from the spec: \<open>subscribe(topic)\<close> creates a new subscription bound to the
  topic and registers it under that topic, whether or not the topic existed (section 4.1).
  The source reaches it as \<open>pubsub.asyncIterator(topic)\<close>.\<close>

definition subscribe :: "string \<Rightarrow> 'e pubsub_state \<Rightarrow> subscription \<times> 'e pubsub_state" where
  "subscribe t ps =
     (let h = next_handle ps in
      (\<lparr>sub_handle = h, sub_topic = t\<rparr>,
       ps\<lparr>registry := (registry ps)(t := insert h (registry ps t)),
          channel := (channel ps)(h := []),
          next_handle := Suc h\<rparr>))"

text \<open>Modelled from the spec: \<open>publish(topic, event)\<close> delivers the event to the channel of
  every subscription currently registered under the topic, at the end of the channel; with
  no subscriber it does nothing (section 4.1). It never fails and never waits.\<close>

definition publish :: "string \<Rightarrow> 'e \<Rightarrow> 'e pubsub_state \<Rightarrow> 'e pubsub_state" where
  "publish t e ps =
     ps\<lparr>channel := (\<lambda>h. if h \<in> registry ps t then channel ps h @ [e] else channel ps h)\<rparr>"

text \<open>Modelled from the spec: \<open>unsubscribe(subscription)\<close> removes the subscription from
  its topic's set; events already in its channel stay there to be drained (section 4.1).\<close>

definition unsubscribe :: "subscription \<Rightarrow> 'e pubsub_state \<Rightarrow> 'e pubsub_state" where
  "unsubscribe s ps =
     ps\<lparr>registry := (registry ps)(sub_topic s := registry ps (sub_topic s) - {sub_handle s})\<rparr>"

text \<open>Modelled from the spec: the session dequeues everything its channel holds, oldest
  first (sections 2 and 4.4).\<close>

definition drain :: "subscription \<Rightarrow> 'e pubsub_state \<Rightarrow> 'e list \<times> 'e pubsub_state" where
  "drain s ps = (channel ps (sub_handle s), ps\<lparr>channel := (channel ps)(sub_handle s := [])\<rparr>)"

text \<open>Modelled from the spec: a sequence of \<open>publish\<close> calls on one topic, in call order.\<close>

fun publish_all :: "string \<Rightarrow> 'e list \<Rightarrow> 'e pubsub_state \<Rightarrow> 'e pubsub_state" where
  "publish_all t [] ps = ps"
| "publish_all t (e # es) ps = publish_all t es (publish t e ps)"

text \<open>Modelled from the spec: the three operations of the registry (section 4.1) as data,
  to speak about any interleaving of them by independent callers; the \<open>PubSub\<close> class is
  missing.\<close>

datatype 'e registry_op =
    Op_publish string 'e
  | Op_subscribe string
  | Op_unsubscribe subscription

text \<open>Modelled from the spec: one operation of a caller, and a sequence of them one after
  the other (section 4.1; the registry serialises its callers, section 5). The result of
  \<open>subscribe\<close>, the new subscription, goes to its caller and is dropped here.\<close>

fun apply_op :: "'e registry_op \<Rightarrow> 'e pubsub_state \<Rightarrow> 'e pubsub_state" where
  "apply_op (Op_publish t e) ps = publish t e ps"
| "apply_op (Op_subscribe t) ps = snd (subscribe t ps)"
| "apply_op (Op_unsubscribe s) ps = unsubscribe s ps"

fun apply_ops :: "'e registry_op list \<Rightarrow> 'e pubsub_state \<Rightarrow> 'e pubsub_state" where
  "apply_ops [] ps = ps"
| "apply_ops (x # xs) ps = apply_ops xs (apply_op x ps)"

text \<open>The events a sequence of operations publishes on a topic, in call order.\<close>

fun events_on :: "string \<Rightarrow> 'e registry_op list \<Rightarrow> 'e list" where
  "events_on t [] = []"
| "events_on t (Op_publish t' e # xs) = (if t' = t then e # events_on t xs else events_on t xs)"
| "events_on t (_ # xs) = events_on t xs"

text \<open>Whether an operation unsubscribes the given handle.\<close>

fun cancels :: "nat \<Rightarrow> 'e registry_op \<Rightarrow> bool" where
  "cancels h (Op_unsubscribe s) = (sub_handle s = h)"
| "cancels h _ = False"

text \<open>Modelled from the spec: a handle that was issued and is registered under no topic
  (after \<open>unsubscribe\<close>), and a handle that was issued and is registered under exactly one
  topic (section 3: a subscription belongs to exactly one topic for its entire lifetime).\<close>

definition removed :: "nat \<Rightarrow> 'e pubsub_state \<Rightarrow> bool" where
  "removed h ps \<longleftrightarrow> h < next_handle ps \<and> (\<forall>t. h \<notin> registry ps t)"

definition bound_to :: "nat \<Rightarrow> string \<Rightarrow> 'e pubsub_state \<Rightarrow> bool" where
  "bound_to h t ps \<longleftrightarrow> h < next_handle ps \<and> (\<forall>t'. h \<in> registry ps t' \<longleftrightarrow> t' = t)"

section \<open>The server\<close>

text \<open>The two pieces of global state of server.js: \<open>buses\<close> and \<open>pubsub\<close>.\<close>

record server =
  buses :: "bus list"
  pubsub :: "event pubsub_state"

definition server_init :: server where
  "server_init = \<lparr>buses = buses_init, pubsub = new_PubSub\<rparr>"

text \<open>Carrying out the \<open>publish\<close> calls of a resolver, in the order it made them.\<close>

fun perform :: "call list \<Rightarrow> event pubsub_state \<Rightarrow> event pubsub_state" where
  "perform [] ps = ps"
| "perform (Publish t e # cs) ps = perform cs (publish t e ps)"

text \<open>
  The mutation entry points: the three GraphQL mutations and the REST endpoint. A request
  to \<open>addReview\<close> carries what the record store answers and the clock; a request to
  \<open>/simulate-location\<close> carries \<open>req.body\<close> and the two random draws.
\<close>

datatype request =
    AddBus string string "int option"
  | UpdateBusLocation string real real
  | AddReview fetch_outcome int string string
  | SimulateLocation "string option" real real

datatype reply =
    BusReply "ref option"
  | ReviewReply "error + review"
  | HttpReply http_result

fun handle_request :: "request \<Rightarrow> server \<Rightarrow> reply \<times> server" where
  "handle_request (AddBus num rte cap) st =
     (case addBus num rte cap (buses st) of
        (i, bs, cs) \<Rightarrow> (BusReply (Some i), st\<lparr>buses := bs, pubsub := perform cs (pubsub st)\<rparr>))"
| "handle_request (UpdateBusLocation ident la lo) st =
     (case updateBusLocation ident la lo (buses st) of
        (r, bs, cs) \<Rightarrow> (BusReply r, st\<lparr>buses := bs, pubsub := perform cs (pubsub st)\<rparr>))"
| "handle_request (AddReview answer now nm msg) st =
     (case addReview (\<lambda>_. answer) now nm msg of
        (r, cs) \<Rightarrow> (ReviewReply r, st\<lparr>pubsub := perform cs (pubsub st)\<rparr>))"
| "handle_request (SimulateLocation req_body r1 r2) st =
     (case simulate_location req_body r1 r2 (buses st) of
        (r, bs, cs) \<Rightarrow> (HttpReply r, st\<lparr>buses := bs, pubsub := perform cs (pubsub st)\<rparr>))"

fun run :: "request list \<Rightarrow> server \<Rightarrow> server" where
  "run [] st = st"
| "run (rq # rqs) st = run rqs (snd (handle_request rq st))"

text \<open>\<open>Subscription.busLocationUpdated.subscribe\<close>: \<open>pubsub.asyncIterator(BUS_LOC_TOPIC)\<close>.\<close>

definition busLocationUpdated_subscribe :: "server \<Rightarrow> subscription \<times> server" where
  "busLocationUpdated_subscribe st =
     (case subscribe BUS_LOC_TOPIC (pubsub st) of (s, ps) \<Rightarrow> (s, st\<lparr>pubsub := ps\<rparr>))"

text \<open>
  What a subscriber is sent for an event: the fields of the bus the payload refers to,
  read from the object when the event is taken from the channel.
\<close>

fun observe :: "bus list \<Rightarrow> event \<Rightarrow> bus option" where
  "observe bs (BusLocationUpdated i) = (if i < length bs then Some (bs ! i) else None)"

text \<open>Modelled from the spec: an active session drains its channel and forwards the
  events to its client (section 4.4); the consumer loop is in the missing packages.\<close>

definition forward :: "subscription \<Rightarrow> server \<Rightarrow> bus option list \<times> server" where
  "forward s st =
     (case drain s (pubsub st) of (es, ps) \<Rightarrow> (map (observe (buses st)) es, st\<lparr>pubsub := ps\<rparr>))"

section \<open>Requests that write to a given bus\<close>

text \<open>
  The requests that look a bus up by the given id and write its coordinates:
  \<open>updateBusLocation\<close> with that id and \<open>/simulate-location\<close> with a body of that id.
\<close>

fun targets :: "string \<Rightarrow> request \<Rightarrow> bool" where
  "targets ident (UpdateBusLocation ident' la lo) = (ident' = ident)"
| "targets ident (SimulateLocation (Some ident') r1 r2) = (ident' = ident)"
| "targets ident rq = False"

text \<open>
  A scenario: one client subscribes, then bus \<open>1\<close> is moved twice before the client
  is sent anything.
\<close>

definition two_updates_sub :: subscription where
  "two_updates_sub = fst (busLocationUpdated_subscribe server_init)"

definition after_first_update :: server where
  "after_first_update =
     snd (handle_request (UpdateBusLocation ''1'' 1 1) (snd (busLocationUpdated_subscribe server_init)))"

definition after_second_update :: server where
  "after_second_update = snd (handle_request (UpdateBusLocation ''1'' 2 2) after_first_update)"

section \<open>An invariant of the array\<close>

text \<open>The bus at position \<open>k\<close> (from 0) has the id \<open>String(k + 1)\<close>.\<close>

definition ids_numbered :: "bus list \<Rightarrow> bool" where
  "ids_numbered bs \<longleftrightarrow> map bus_id bs = map (\<lambda>k. String_nat (Suc k)) [0..<length bs]"

section \<open>Auxiliary facts\<close>

subsection \<open>Decimal strings\<close>

lemma digit_val_digit_char: "d < 10 \<Longrightarrow> digit_val (digit_char d) = d"
proof -
  assume "d < 10"
  then have "d = 0 \<or> d = 1 \<or> d = 2 \<or> d = 3 \<or> d = 4 \<or> d = 5 \<or> d = 6 \<or> d = 7 \<or> d = 8 \<or> d = 9"
    by arith
  then show ?thesis
    by (elim disjE) (simp_all add: digit_val_def digit_char_def)
qed

lemma decimal_val_snoc: "decimal_val (s @ [c]) = 10 * decimal_val s + digit_val c"
  by (simp add: decimal_val_def)

lemma decimal_val_String_nat: "decimal_val (String_nat n) = n"
proof (induction n rule: String_nat.induct)
  case (1 n)
  show ?case
  proof (cases "n < 10")
    case True
    then show ?thesis
      by (simp add: String_nat.simps [of n] decimal_val_def digit_val_digit_char)
  next
    case False
    with 1 show ?thesis
      by (simp add: String_nat.simps [of n] decimal_val_snoc digit_val_digit_char)
  qed
qed

lemma inj_String_nat: "inj String_nat"
  by (rule inj_on_inverseI [where g = decimal_val]) (rule decimal_val_String_nat)

subsection \<open>Searching the array\<close>

lemma find_bus_None_iff: "find_bus P bs = None \<longleftrightarrow> (\<forall>b \<in> set bs. \<not> P b)"
  by (induction bs) auto

lemma find_bus_Some:
  "find_bus P bs = Some i \<Longrightarrow> i < length bs \<and> P (bs ! i) \<and> (\<forall>j < i. \<not> P (bs ! j))"
proof (induction bs arbitrary: i)
  case Nil
  then show ?case by simp
next
  case (Cons b bs)
  show ?case
  proof (cases "P b")
    case True
    with Cons.prems show ?thesis by simp
  next
    case False
    with Cons.prems obtain k where k: "find_bus P bs = Some k" "i = Suc k"
      by auto
    from Cons.IH [OF k(1)] False k(2) show ?thesis
      by (auto simp: less_Suc_eq_0_disj)
  qed
qed

subsection \<open>What the resolvers compute\<close>

lemma coordinates_overwrite: "(c::coordinates)\<lparr>lat := a, lng := b\<rparr> = \<lparr>lat = a, lng = b\<rparr>"
  by (cases c) simp

lemma set_lng_set_lat:
  "i < length bs \<Longrightarrow>
     set_lng i lo (set_lat i la bs) = bs[i := (bs ! i)\<lparr>coords := \<lparr>lat = la, lng = lo\<rparr>\<rparr>]"
  by (simp add: set_lat_def set_lng_def coordinates_overwrite)

lemma updateBusLocation_found:
  assumes "find_bus (\<lambda>b. bus_id b = ident) bs = Some i"
  shows "updateBusLocation ident la lo bs =
           (Some i, bs[i := (bs ! i)\<lparr>coords := \<lparr>lat = la, lng = lo\<rparr>\<rparr>],
            [Publish BUS_LOC_TOPIC (BusLocationUpdated i)])"
proof -
  from find_bus_Some [OF assms] have "i < length bs" by simp
  with assms show ?thesis
    by (simp add: updateBusLocation_def set_lng_set_lat)
qed

lemma updateBusLocation_missing:
  assumes "find_bus (\<lambda>b. bus_id b = ident) bs = None"
  shows "updateBusLocation ident la lo bs = (None, bs, [])"
  using assms by (simp add: updateBusLocation_def)

lemma simulate_location_found:
  assumes "find_bus (\<lambda>b. bus_id b = ident) bs = Some i"
  shows "simulate_location (Some ident) r1 r2 bs =
           (Json 200 (BusBody ((bs ! i)\<lparr>coords :=
                \<lparr>lat = lat (coords (bs ! i)) + (r1 - 0.5) * 0.001,
                 lng = lng (coords (bs ! i)) + (r2 - 0.5) * 0.001\<rparr>\<rparr>)),
            bs[i := (bs ! i)\<lparr>coords :=
                \<lparr>lat = lat (coords (bs ! i)) + (r1 - 0.5) * 0.001,
                 lng = lng (coords (bs ! i)) + (r2 - 0.5) * 0.001\<rparr>\<rparr>],
            [Publish BUS_LOC_TOPIC (BusLocationUpdated i)])"
proof -
  from find_bus_Some [OF assms] have "i < length bs" by simp
  with assms show ?thesis
    by (simp add: simulate_location_def set_lat_def set_lng_def coordinates_overwrite)
qed

lemma simulate_location_missing:
  assumes "find_bus (\<lambda>b. bus_id b = ident) bs = None"
  shows "simulate_location (Some ident) r1 r2 bs = (Json 404 (ErrorBody ''bus not found''), bs, [])"
  using assms by (simp add: simulate_location_def)

lemma simulate_location_no_body:
  "simulate_location None r1 r2 bs = (Thrown TypeError, bs, [])"
  by (simp add: simulate_location_def)

lemma find_bus_present:
  assumes "ident \<in> bus_id ` set bs"
  obtains i where "find_bus (\<lambda>b. bus_id b = ident) bs = Some i"
proof (cases "find_bus (\<lambda>b. bus_id b = ident) bs")
  case None
  with assms show ?thesis by (auto simp: find_bus_None_iff)
next
  case (Some i)
  then show ?thesis by (rule that)
qed

lemma find_bus_absent:
  "ident \<notin> bus_id ` set bs \<Longrightarrow> find_bus (\<lambda>b. bus_id b = ident) bs = None"
  by (auto simp: find_bus_None_iff)

subsection \<open>The ids of the buses\<close>

lemma map_bus_id_update:
  "i < length bs \<Longrightarrow> map bus_id (bs[i := (bs ! i)\<lparr>coords := c\<rparr>]) = map bus_id bs"
  by (simp add: map_update list_update_same_conv)

lemma updateBusLocation_ids:
  "map bus_id (fst (snd (updateBusLocation ident la lo bs))) = map bus_id bs"
proof (cases "find_bus (\<lambda>b. bus_id b = ident) bs")
  case None
  then show ?thesis by (simp add: updateBusLocation_missing)
next
  case (Some i)
  from find_bus_Some [OF Some] have "i < length bs" by simp
  then show ?thesis
    by (simp add: updateBusLocation_found [OF Some] map_bus_id_update)
qed

lemma simulate_location_ids:
  "map bus_id (fst (snd (simulate_location req_body r1 r2 bs))) = map bus_id bs"
proof (cases req_body)
  case None
  then show ?thesis by (simp add: simulate_location_def)
next
  case body: (Some ident)
  show ?thesis
  proof (cases "find_bus (\<lambda>b. bus_id b = ident) bs")
    case None
    then show ?thesis by (simp add: body simulate_location_missing)
  next
    case (Some i)
    from find_bus_Some [OF Some] have "i < length bs" by simp
    then show ?thesis
      by (simp add: body simulate_location_found [OF Some] map_bus_id_update)
  qed
qed

lemma addBus_ids:
  "map bus_id (fst (snd (addBus num rte cap bs))) = map bus_id bs @ [String_nat (Suc (length bs))]"
  by (simp add: addBus_def)

lemma ids_numbered_cong:
  "map bus_id bs' = map bus_id bs \<Longrightarrow> ids_numbered bs \<Longrightarrow> ids_numbered bs'"
proof -
  assume eq: "map bus_id bs' = map bus_id bs" and num: "ids_numbered bs"
  from eq have "length bs' = length bs"
    by (rule map_eq_imp_length_eq)
  with eq num show ?thesis
    by (simp add: ids_numbered_def)
qed

lemma ids_numbered_addBus:
  "ids_numbered bs \<Longrightarrow> ids_numbered (fst (snd (addBus num rte cap bs)))"
  unfolding ids_numbered_def addBus_ids by (simp add: addBus_def)

lemma handle_request_ids_numbered:
  assumes "ids_numbered (buses st)"
  shows "ids_numbered (buses (snd (handle_request rq st)))"
proof (cases rq)
  case (AddBus num rte cap)
  with ids_numbered_addBus [OF assms, of num rte cap] show ?thesis
    by (auto split: prod.splits)
next
  case (UpdateBusLocation ident la lo)
  with ids_numbered_cong [OF updateBusLocation_ids assms, of ident la lo] show ?thesis
    by (auto split: prod.splits)
next
  case (AddReview answer now nm msg)
  with assms show ?thesis
    by (auto split: prod.splits)
next
  case (SimulateLocation req_body r1 r2)
  with ids_numbered_cong [OF simulate_location_ids assms, of req_body r1 r2] show ?thesis
    by (auto split: prod.splits)
qed

lemma run_ids_numbered:
  "ids_numbered (buses st) \<Longrightarrow> ids_numbered (buses (run rqs st))"
  by (induction rqs arbitrary: st) (simp_all add: handle_request_ids_numbered)

lemma ids_numbered_init: "ids_numbered (buses server_init)"
  by (simp add: ids_numbered_def server_init_def buses_init_def String_nat.simps digit_char_def)

lemma ids_numbered_distinct:
  assumes "ids_numbered bs"
  shows "distinct (map bus_id bs)"
proof -
  have "inj (\<lambda>k. String_nat (Suc k))"
    using inj_String_nat by (auto simp: inj_def)
  then have "distinct (map (\<lambda>k. String_nat (Suc k)) [0..<length bs])"
    by (simp add: distinct_map inj_on_def inj_def)
  with assms show ?thesis
    by (simp add: ids_numbered_def)
qed

subsection \<open>The registry\<close>

lemma subscribe_eq:
  "subscribe t ps =
     (\<lparr>sub_handle = next_handle ps, sub_topic = t\<rparr>,
      ps\<lparr>registry := (registry ps)(t := insert (next_handle ps) (registry ps t)),
         channel := (channel ps)(next_handle ps := []),
         next_handle := Suc (next_handle ps)\<rparr>)"
  by (simp add: subscribe_def Let_def)

lemma registry_publish [simp]: "registry (publish t e ps) = registry ps"
  by (simp add: publish_def)

lemma next_handle_publish [simp]: "next_handle (publish t e ps) = next_handle ps"
  by (simp add: publish_def)

lemma channel_publish:
  "channel (publish t e ps) h = (if h \<in> registry ps t then channel ps h @ [e] else channel ps h)"
  by (simp add: publish_def)

lemma registry_publish_all [simp]: "registry (publish_all t es ps) = registry ps"
  by (induction es arbitrary: ps) simp_all

lemma channel_publish_all:
  "channel (publish_all t es ps) h =
     (if h \<in> registry ps t then channel ps h @ es else channel ps h)"
  by (induction es arbitrary: ps) (simp_all add: channel_publish)

lemma perform_map_Publish: "perform (map (Publish t) es) ps = publish_all t es ps"
  by (induction es arbitrary: ps) simp_all

lemma publish_no_subscriber: "registry ps t = {} \<Longrightarrow> publish t e ps = ps"
  by (simp add: publish_def)

subsection \<open>Interleaved operations on the registry\<close>

lemma removed_apply_op:
  "removed h ps \<Longrightarrow> removed h (apply_op x ps) \<and> channel (apply_op x ps) h = channel ps h"
  by (cases x) (auto simp: removed_def subscribe_eq unsubscribe_def channel_publish)

lemma removed_apply_ops:
  "removed h ps \<Longrightarrow> channel (apply_ops xs ps) h = channel ps h"
proof (induction xs arbitrary: ps)
  case Nil
  show ?case by simp
next
  case (Cons x xs)
  from removed_apply_op [OF Cons.prems, of x]
  have "removed h (apply_op x ps)" and "channel (apply_op x ps) h = channel ps h"
    by simp_all
  with Cons.IH [of "apply_op x ps"] show ?case
    by simp
qed

lemma removed_unsubscribe:
  assumes "sub_handle s < next_handle ps"
    and "\<forall>t. sub_handle s \<in> registry ps t \<longrightarrow> t = sub_topic s"
  shows "removed (sub_handle s) (unsubscribe s ps)"
  using assms by (auto simp: removed_def unsubscribe_def)

lemma bound_to_apply_op:
  assumes "bound_to h t ps" and "\<not> cancels h x"
  shows "bound_to h t (apply_op x ps) \<and>
         channel (apply_op x ps) h = channel ps h @ events_on t [x]"
proof (cases x)
  case (Op_publish t' e)
  with assms show ?thesis
    by (auto simp: bound_to_def channel_publish)
next
  case (Op_subscribe t')
  with assms show ?thesis
    by (auto simp: bound_to_def subscribe_eq)
next
  case (Op_unsubscribe s)
  with assms show ?thesis
    by (auto simp: bound_to_def unsubscribe_def)
qed

lemma events_on_Cons: "events_on t (x # xs) = events_on t [x] @ events_on t xs"
  by (cases x) simp_all

lemma bound_to_apply_ops:
  "bound_to h t ps \<Longrightarrow> \<forall>x \<in> set xs. \<not> cancels h x \<Longrightarrow>
     channel (apply_ops xs ps) h = channel ps h @ events_on t xs"
proof (induction xs arbitrary: ps)
  case Nil
  show ?case by simp
next
  case (Cons x xs)
  from Cons.prems have nc: "\<not> cancels h x" and rest: "\<forall>y \<in> set xs. \<not> cancels h y"
    by simp_all
  from bound_to_apply_op [OF Cons.prems(1) nc]
  have step: "bound_to h t (apply_op x ps)"
    "channel (apply_op x ps) h = channel ps h @ events_on t [x]"
    by simp_all
  from Cons.IH [OF step(1) rest] step(2) show ?case
    by (simp add: events_on_Cons [of t x xs])
qed

subsection \<open>Requests and the state of the server\<close>

lemma handle_request_buses:
  "buses (snd (handle_request rq st)) =
     (case rq of
        AddBus num rte cap \<Rightarrow> fst (snd (addBus num rte cap (buses st)))
      | UpdateBusLocation ident la lo \<Rightarrow> fst (snd (updateBusLocation ident la lo (buses st)))
      | AddReview answer now nm msg \<Rightarrow> buses st
      | SimulateLocation req_body r1 r2 \<Rightarrow>
          fst (snd (simulate_location req_body r1 r2 (buses st))))"
  by (cases rq) (simp_all split: prod.splits)

lemma handle_request_pubsub:
  "pubsub (snd (handle_request rq st)) =
     perform
       (case rq of
          AddBus num rte cap \<Rightarrow> snd (snd (addBus num rte cap (buses st)))
        | UpdateBusLocation ident la lo \<Rightarrow> snd (snd (updateBusLocation ident la lo (buses st)))
        | AddReview answer now nm msg \<Rightarrow> snd (addReview (\<lambda>_. answer) now nm msg)
        | SimulateLocation req_body r1 r2 \<Rightarrow>
            snd (snd (simulate_location req_body r1 r2 (buses st))))
       (pubsub st)"
  by (cases rq) (simp_all split: prod.splits)

lemma updateBusLocation_calls:
  "\<forall>c \<in> set (snd (snd (updateBusLocation ident la lo bs))).
     \<exists>i. c = Publish BUS_LOC_TOPIC (BusLocationUpdated i)"
  by (simp add: updateBusLocation_def Let_def split: option.splits)

lemma simulate_location_calls:
  "\<forall>c \<in> set (snd (snd (simulate_location req_body r1 r2 bs))).
     \<exists>i. c = Publish BUS_LOC_TOPIC (BusLocationUpdated i)"
  by (simp add: simulate_location_def Let_def split: option.splits)

lemma addReview_calls: "snd (addReview fetch now nm msg) = []"
  by (simp add: addReview_def split: fetch_outcome.splits)

lemma handle_request_calls:
  "\<exists>cs. pubsub (snd (handle_request rq st)) = perform cs (pubsub st) \<and>
        (\<forall>c \<in> set cs. \<exists>i. c = Publish BUS_LOC_TOPIC (BusLocationUpdated i))"
proof (cases rq)
  case (AddBus num rte cap)
  then show ?thesis
    by (intro exI [of _ "[]"]) (simp add: addBus_def)
next
  case (UpdateBusLocation ident la lo)
  with updateBusLocation_calls [of ident la lo "buses st"] show ?thesis
    by (intro exI [of _ "snd (snd (updateBusLocation ident la lo (buses st)))"])
      (simp add: handle_request_pubsub del: handle_request.simps)
next
  case (AddReview answer now nm msg)
  then show ?thesis
    by (intro exI [of _ "[]"]) (simp add: handle_request_pubsub addReview_calls del: handle_request.simps)
next
  case (SimulateLocation req_body r1 r2)
  with simulate_location_calls [of req_body r1 r2 "buses st"] show ?thesis
    by (intro exI [of _ "snd (snd (simulate_location req_body r1 r2 (buses st)))"])
      (simp add: handle_request_pubsub del: handle_request.simps)
qed

lemma perform_extends:
  "registry (perform cs ps) = registry ps \<and> (\<exists>more. channel (perform cs ps) h = channel ps h @ more)"
proof (induction cs arbitrary: ps)
  case Nil
  show ?case by simp
next
  case (Cons c cs)
  obtain t e where c: "c = Publish t e" by (cases c)
  from Cons.IH [of "publish t e ps"] c show ?case
    by (auto simp: channel_publish)
qed

lemma perform_no_subscriber:
  "registry ps t = {} \<Longrightarrow> \<forall>c \<in> set cs. \<exists>e. c = Publish t e \<Longrightarrow> perform cs ps = ps"
  by (induction cs) (auto simp: publish_no_subscriber)

lemma handle_request_extends:
  "registry (pubsub (snd (handle_request rq st))) = registry (pubsub st) \<and>
   (\<exists>more. channel (pubsub (snd (handle_request rq st))) h = channel (pubsub st) h @ more)"
proof -
  from handle_request_calls [of rq st]
  obtain cs where "pubsub (snd (handle_request rq st)) = perform cs (pubsub st)"
    by blast
  with perform_extends [of cs "pubsub st" h] show ?thesis
    by simp
qed

lemma run_extends:
  "registry (pubsub (run rqs st)) = registry (pubsub st) \<and>
   (\<exists>more. channel (pubsub (run rqs st)) h = channel (pubsub st) h @ more)"
proof (induction rqs arbitrary: st)
  case Nil
  show ?case by simp
next
  case (Cons rq rqs)
  from handle_request_extends [of rq st h] Cons.IH [of "snd (handle_request rq st)"]
  show ?case by auto
qed

lemma handle_request_length:
  "length (buses st) \<le> length (buses (snd (handle_request rq st)))"
proof -
  have "length (map bus_id (buses st)) \<le> length (map bus_id (buses (snd (handle_request rq st))))"
    unfolding handle_request_buses
    by (cases rq) (simp_all only: request.case updateBusLocation_ids simulate_location_ids
        addBus_ids, simp_all)
  then show ?thesis by simp
qed

lemma run_length: "length (buses st) \<le> length (buses (run rqs st))"
proof (induction rqs arbitrary: st)
  case Nil
  show ?case by simp
next
  case (Cons rq rqs)
  from handle_request_length [of st rq] Cons.IH [of "snd (handle_request rq st)"]
  show ?case by simp
qed

lemma untargeted_update:
  assumes "i < length bs" and "ident \<noteq> bus_id (bs ! i)"
  shows "fst (snd (updateBusLocation ident la lo bs)) ! i = bs ! i"
proof (cases "find_bus (\<lambda>b. bus_id b = ident) bs")
  case None
  then show ?thesis by (simp add: updateBusLocation_missing)
next
  case (Some k)
  from find_bus_Some [OF Some] assms have "k \<noteq> i" by auto
  then show ?thesis
    by (simp add: updateBusLocation_found [OF Some])
qed

lemma untargeted_simulate:
  assumes "i < length bs" and "req_body \<noteq> Some (bus_id (bs ! i))"
  shows "fst (snd (simulate_location req_body r1 r2 bs)) ! i = bs ! i"
proof (cases req_body)
  case None
  then show ?thesis by (simp add: simulate_location_def)
next
  case body: (Some ident)
  show ?thesis
  proof (cases "find_bus (\<lambda>b. bus_id b = ident) bs")
    case None
    then show ?thesis by (simp add: body simulate_location_missing)
  next
    case (Some k)
    from find_bus_Some [OF Some] assms body have "k \<noteq> i" by auto
    then show ?thesis
      by (simp add: body simulate_location_found [OF Some])
  qed
qed

lemma untargeted_request:
  assumes "i < length (buses st)" and "\<not> targets (bus_id (buses st ! i)) rq"
  shows "buses (snd (handle_request rq st)) ! i = buses st ! i"
proof (cases rq)
  case (AddBus num rte cap)
  with assms show ?thesis by (simp add: handle_request_buses addBus_def nth_append del: handle_request.simps)
next
  case (UpdateBusLocation ident la lo)
  with assms have "ident \<noteq> bus_id (buses st ! i)" by simp
  from untargeted_update [OF assms(1) this, of la lo] UpdateBusLocation show ?thesis
    by (simp add: handle_request_buses del: handle_request.simps)
next
  case (AddReview answer now nm msg)
  then show ?thesis by (simp add: handle_request_buses del: handle_request.simps)
next
  case (SimulateLocation req_body r1 r2)
  with assms have "req_body \<noteq> Some (bus_id (buses st ! i))" by (cases req_body) auto
  from untargeted_simulate [OF assms(1) this, of r1 r2] SimulateLocation show ?thesis
    by (simp add: handle_request_buses del: handle_request.simps)
qed

lemma untargeted_run:
  "i < length (buses st) \<Longrightarrow> \<forall>rq \<in> set rqs. \<not> targets (bus_id (buses st ! i)) rq \<Longrightarrow>
     buses (run rqs st) ! i = buses st ! i"
proof (induction rqs arbitrary: st)
  case Nil
  show ?case by simp
next
  case (Cons rq rqs)
  let ?st = "snd (handle_request rq st)"
  from Cons.prems have nt: "\<not> targets (bus_id (buses st ! i)) rq" by simp
  have same: "buses ?st ! i = buses st ! i"
    by (rule untargeted_request [OF Cons.prems(1) nt])
  from handle_request_length [of st rq] Cons.prems(1) have len: "i < length (buses ?st)"
    by simp
  from Cons.prems(2) same have "\<forall>rq \<in> set rqs. \<not> targets (bus_id (buses ?st ! i)) rq"
    by simp
  from Cons.IH [OF len this] same show ?case
    by simp
qed

lemma forward_eq:
  "fst (forward s st) = map (observe (buses st)) (channel (pubsub st) (sub_handle s))"
  by (simp add: forward_def drain_def)

lemma targeted_request:
  assumes found: "find_bus (\<lambda>b. bus_id b = ident) (buses st) = Some i"
    and rq: "targets ident rq"
  shows "pubsub (snd (handle_request rq st)) =
           publish BUS_LOC_TOPIC (BusLocationUpdated i) (pubsub st) \<and>
         length (buses (snd (handle_request rq st))) = length (buses st) \<and>
         bus_id (buses (snd (handle_request rq st)) ! i) = ident"
proof -
  from find_bus_Some [OF found] have i: "i < length (buses st)" "bus_id (buses st ! i) = ident"
    by simp_all
  show ?thesis
  proof (cases rq)
    case (AddBus num rte cap)
    with rq show ?thesis by simp
  next
    case (UpdateBusLocation ident' la lo)
    with rq have "ident' = ident" by simp
    with UpdateBusLocation i show ?thesis
      by (simp add: updateBusLocation_found [OF found])
  next
    case (AddReview answer now nm msg)
    with rq show ?thesis by simp
  next
    case (SimulateLocation req_body r1 r2)
    with rq have "req_body = Some ident" by (cases req_body) simp_all
    with SimulateLocation i show ?thesis
      by (simp add: simulate_location_found [OF found])
  qed
qed

section \<open>The claims\<close>

text \<open>
  C1. For every sequence of \<open>publish\<close> calls on a topic and every subscription registered
  under the topic, draining the subscription's channel yields what it held before followed
  by exactly the published events, in call order; for a subscription created just before
  the sequence (by \<open>subscribe\<close>, or by the \<open>busLocationUpdated\<close> resolver) that is exactly
  the published events. The same holds when other callers subscribe, unsubscribe and
  publish on other topics in between, as long as nobody unsubscribes this subscription.
  The channel is the unbounded one: nothing is dropped.
\<close>

theorem per_subscriber_fifo:
  "(sub_handle s \<in> registry ps t \<longrightarrow>
      fst (drain s (publish_all t es ps)) = channel ps (sub_handle s) @ es) \<and>
   (case subscribe t ps of (s', ps') \<Rightarrow> fst (drain s' (publish_all t es ps')) = es) \<and>
   (case busLocationUpdated_subscribe st of
      (s', st') \<Rightarrow> fst (drain s' (perform (map (Publish BUS_LOC_TOPIC) es') (pubsub st'))) = es') \<and>
   (bound_to h t ps \<and> (\<forall>x \<in> set xs. \<not> cancels h x) \<longrightarrow>
      channel (apply_ops xs ps) h = channel ps h @ events_on t xs)"
proof -
  have "bound_to h t ps \<and> (\<forall>x \<in> set xs. \<not> cancels h x) \<longrightarrow>
      channel (apply_ops xs ps) h = channel ps h @ events_on t xs"
    using bound_to_apply_ops [of h t ps xs] by blast
  then show ?thesis
    by (simp add: drain_def channel_publish_all perform_map_Publish subscribe_eq
        busLocationUpdated_subscribe_def)
qed

theorem per_subscriber_fifo_witness:
  "fst (drain (fst (subscribe ''t'' (new_PubSub :: nat pubsub_state)))
     (publish_all ''t'' [1::nat, 2, 3] (snd (subscribe ''t'' (new_PubSub :: nat pubsub_state))))) = [1, 2, 3] \<and>
   bound_to 0 ''t'' (snd (subscribe ''t'' (new_PubSub :: nat pubsub_state))) \<and>
   channel (apply_ops [Op_publish ''t'' 1, Op_subscribe ''t'', Op_publish ''u'' 7,
       Op_unsubscribe \<lparr>sub_handle = 1, sub_topic = ''t''\<rparr>, Op_publish ''t'' 2]
     (snd (subscribe ''t'' (new_PubSub :: nat pubsub_state)))) 0 = [1, 2]"
proof -
  let ?ps = "snd (subscribe ''t'' (new_PubSub :: nat pubsub_state))"
  let ?xs = "[Op_publish ''t'' (1::nat), Op_subscribe ''t'', Op_publish ''u'' 7,
       Op_unsubscribe \<lparr>sub_handle = 1, sub_topic = ''t''\<rparr>, Op_publish ''t'' 2]"
  have b: "bound_to 0 ''t'' ?ps"
    by (simp add: bound_to_def subscribe_eq new_PubSub_def)
  have nc: "\<forall>x \<in> set ?xs. \<not> cancels 0 x"
    by simp
  have empty: "channel ?ps 0 = []"
    by (simp add: subscribe_eq new_PubSub_def)
  note fifo = per_subscriber_fifo [where ps = "new_PubSub :: nat pubsub_state"
      and t = "''t''" and es = "[1, 2, 3]"]
  note inter = per_subscriber_fifo [where ps = ?ps and t = "''t''" and h = 0 and xs = ?xs]
  from fifo [THEN conjunct2, THEN conjunct1]
  have first: "fst (drain (fst (subscribe ''t'' (new_PubSub :: nat pubsub_state)))
     (publish_all ''t'' [1::nat, 2, 3] (snd (subscribe ''t'' (new_PubSub :: nat pubsub_state))))) = [1, 2, 3]"
    by (simp add: subscribe_eq)
  from inter b nc have "channel (apply_ops ?xs ?ps) 0 = channel ?ps 0 @ events_on ''t'' ?xs"
    by blast
  with empty have "channel (apply_ops ?xs ?ps) 0 = [1, 2]"
    by simp
  with first b show ?thesis
    by (intro conjI)
qed

text \<open>
  C2. \<open>publish\<close> appends the event to the channel of every subscription registered
  under the topic and to no other channel. With two subscriptions S1 and S2 on a topic,
  publishing E1 delivers it to both; after unsubscribing S1, publishing E2 delivers it to
  S2 only, so that S2 holds E1, E2 in that order and S1 holds E1 alone.
\<close>

theorem publish_fans_out:
  "(\<forall>h \<in> registry ps t. channel (publish t e ps) h = channel ps h @ [e]) \<and>
   (\<forall>h. h \<notin> registry ps t \<longrightarrow> channel (publish t e ps) h = channel ps h) \<and>
   (case subscribe t ps of
      (s1, ps1) \<Rightarrow>
        (case subscribe t ps1 of
           (s2, ps2) \<Rightarrow>
             fst (drain s1 (publish t e1 ps2)) = [e1] \<and>
             fst (drain s2 (publish t e1 ps2)) = [e1] \<and>
             fst (drain s1 (publish t e2 (unsubscribe s1 (publish t e1 ps2)))) = [e1] \<and>
             fst (drain s2 (publish t e2 (unsubscribe s1 (publish t e1 ps2)))) = [e1, e2]))"
  by (simp add: channel_publish drain_def subscribe_eq unsubscribe_def)

theorem publish_fans_out_witness:
  "channel (pubsub (snd (handle_request (UpdateBusLocation ''1'' 1 1)
      (snd (busLocationUpdated_subscribe server_init))))) 0 = [BusLocationUpdated 0] \<and>
   fst (drain (fst (subscribe ''t'' (snd (subscribe ''t'' (new_PubSub :: nat pubsub_state)))))
     (publish ''t'' (2::nat)
       (unsubscribe (fst (subscribe ''t'' (new_PubSub :: nat pubsub_state)))
         (publish ''t'' 1 (snd (subscribe ''t'' (snd (subscribe ''t'' (new_PubSub :: nat pubsub_state))))))))) = [1, 2] \<and>
   fst (drain (fst (subscribe ''t'' (new_PubSub :: nat pubsub_state)))
     (publish ''t'' (2::nat)
       (unsubscribe (fst (subscribe ''t'' (new_PubSub :: nat pubsub_state)))
         (publish ''t'' 1 (snd (subscribe ''t'' (snd (subscribe ''t'' (new_PubSub :: nat pubsub_state))))))))) = [1]"
proof -
  let ?ps = "pubsub (snd (busLocationUpdated_subscribe server_init))"
  have reg: "0 \<in> registry ?ps BUS_LOC_TOPIC"
    by (simp add: busLocationUpdated_subscribe_def subscribe_eq server_init_def new_PubSub_def)
  have empty: "channel ?ps 0 = []"
    by (simp add: busLocationUpdated_subscribe_def subscribe_eq server_init_def new_PubSub_def)
  have upd: "pubsub (snd (handle_request (UpdateBusLocation ''1'' 1 1)
      (snd (busLocationUpdated_subscribe server_init)))) =
      publish BUS_LOC_TOPIC (BusLocationUpdated 0) ?ps"
    by (simp add: busLocationUpdated_subscribe_def subscribe_eq server_init_def buses_init_def
        updateBusLocation_def)
  from publish_fans_out [where ps = ?ps and t = BUS_LOC_TOPIC and e = "BusLocationUpdated 0"] reg
  have "channel (publish BUS_LOC_TOPIC (BusLocationUpdated 0) ?ps) 0 =
      channel ?ps 0 @ [BusLocationUpdated 0]"
    by blast
  with upd empty have first: "channel (pubsub (snd (handle_request (UpdateBusLocation ''1'' 1 1)
      (snd (busLocationUpdated_subscribe server_init))))) 0 = [BusLocationUpdated 0]"
    by simp
  from publish_fans_out [where ps = "new_PubSub :: nat pubsub_state" and t = "''t''"
      and ?e1.0 = 1 and ?e2.0 = 2, THEN conjunct2, THEN conjunct2]
  have "fst (drain (fst (subscribe ''t'' (snd (subscribe ''t'' (new_PubSub :: nat pubsub_state)))))
     (publish ''t'' (2::nat)
       (unsubscribe (fst (subscribe ''t'' (new_PubSub :: nat pubsub_state)))
         (publish ''t'' 1 (snd (subscribe ''t'' (snd (subscribe ''t'' (new_PubSub :: nat pubsub_state))))))))) = [1, 2] \<and>
   fst (drain (fst (subscribe ''t'' (new_PubSub :: nat pubsub_state)))
     (publish ''t'' (2::nat)
       (unsubscribe (fst (subscribe ''t'' (new_PubSub :: nat pubsub_state)))
         (publish ''t'' 1 (snd (subscribe ''t'' (snd (subscribe ''t'' (new_PubSub :: nat pubsub_state))))))))) = [1]"
    by (simp add: subscribe_eq)
  with first show ?thesis
    by (intro conjI) simp_all
qed

text \<open>
  C3. \<open>unsubscribe\<close> is idempotent: a second call on the same subscription changes
  nothing. After it, no sequence of \<open>publish\<close> calls on the subscription's topic adds an
  event to its channel; and for a subscription that was issued and is registered under its
  own topic only, no sequence of registry operations whatever does.
\<close>

theorem unsubscribe_idempotent_and_final:
  "unsubscribe s (unsubscribe s ps) = unsubscribe s ps \<and>
   channel (publish_all (sub_topic s) es (unsubscribe s ps)) (sub_handle s) =
     channel ps (sub_handle s) \<and>
   (sub_handle s < next_handle ps \<and>
    (\<forall>t. sub_handle s \<in> registry ps t \<longrightarrow> t = sub_topic s) \<longrightarrow>
      channel (apply_ops xs (unsubscribe s ps)) (sub_handle s) = channel ps (sub_handle s))"
proof -
  have idem: "unsubscribe s (unsubscribe s ps) = unsubscribe s ps"
    by (simp add: unsubscribe_def)
  have same: "channel (unsubscribe s ps) (sub_handle s) = channel ps (sub_handle s)"
    by (simp add: unsubscribe_def)
  have gone: "sub_handle s \<notin> registry (unsubscribe s ps) (sub_topic s)"
    by (simp add: unsubscribe_def)
  have pubs: "channel (publish_all (sub_topic s) es (unsubscribe s ps)) (sub_handle s) =
     channel ps (sub_handle s)"
    using gone same by (simp add: channel_publish_all)
  have ever: "channel (apply_ops xs (unsubscribe s ps)) (sub_handle s) = channel ps (sub_handle s)"
    if "sub_handle s < next_handle ps"
      and "\<forall>t. sub_handle s \<in> registry ps t \<longrightarrow> t = sub_topic s"
    using removed_apply_ops [OF removed_unsubscribe [OF that], of xs] same by simp
  from idem pubs ever show ?thesis
    by blast
qed

theorem unsubscribe_idempotent_and_final_witness:
  "channel (apply_ops [Op_publish ''t'' 2, Op_subscribe ''t'', Op_publish ''t'' 3]
      (unsubscribe \<lparr>sub_handle = 0, sub_topic = ''t''\<rparr>
        (publish ''t'' (1::nat) (snd (subscribe ''t'' (new_PubSub :: nat pubsub_state)))))) 0 = [1]"
proof -
  let ?s = "\<lparr>sub_handle = 0, sub_topic = ''t''\<rparr>"
  let ?ps = "publish ''t'' (1::nat) (snd (subscribe ''t'' (new_PubSub :: nat pubsub_state)))"
  have issued: "sub_handle ?s < next_handle ?ps"
    by (simp add: subscribe_eq new_PubSub_def)
  have one_topic: "\<forall>t. sub_handle ?s \<in> registry ?ps t \<longrightarrow> t = sub_topic ?s"
    by (simp add: subscribe_eq new_PubSub_def)
  have before: "channel ?ps 0 = [1]"
    by (simp add: channel_publish subscribe_eq new_PubSub_def)
  from unsubscribe_idempotent_and_final [where s = ?s and ps = ?ps
      and xs = "[Op_publish ''t'' 2, Op_subscribe ''t'', Op_publish ''t'' 3]"] issued one_topic
  have "channel (apply_ops [Op_publish ''t'' 2, Op_subscribe ''t'', Op_publish ''t'' 3]
      (unsubscribe ?s ?ps)) (sub_handle ?s) = channel ?ps (sub_handle ?s)"
    by blast
  with before show ?thesis
    by simp
qed

text \<open>
  C4. Publishing to a topic with no registered subscription changes nothing: the registry
  and every channel are as before, and so is the array of buses, which \<open>publish\<close> cannot
  reach. \<open>publish\<close> is a total function, so it neither fails nor waits. In particular a
  request to any mutation entry point leaves \<open>pubsub\<close> as it was when \<open>BUS_LOC_TOPIC\<close>
  has no subscriber.
\<close>

theorem publish_without_subscribers:
  "(registry ps t = {} \<longrightarrow> publish t e ps = ps) \<and>
   (registry (pubsub st) t = {} \<longrightarrow> st\<lparr>pubsub := perform [Publish t ev] (pubsub st)\<rparr> = st) \<and>
   (registry (pubsub st) BUS_LOC_TOPIC = {} \<longrightarrow>
      pubsub (snd (handle_request rq st)) = pubsub st)"
proof -
  have "pubsub (snd (handle_request rq st)) = pubsub st"
    if none: "registry (pubsub st) BUS_LOC_TOPIC = {}"
  proof -
    from handle_request_calls [of rq st]
    obtain cs where cs: "pubsub (snd (handle_request rq st)) = perform cs (pubsub st)"
      "\<forall>c \<in> set cs. \<exists>i. c = Publish BUS_LOC_TOPIC (BusLocationUpdated i)"
      by blast
    from cs(2) have "\<forall>c \<in> set cs. \<exists>e. c = Publish BUS_LOC_TOPIC e"
      by blast
    from perform_no_subscriber [OF none this] cs(1) show ?thesis
      by simp
  qed
  then show ?thesis
    by (simp add: publish_no_subscriber)
qed

theorem publish_without_subscribers_witness:
  "registry (pubsub server_init) BUS_LOC_TOPIC = {} \<and>
   snd (handle_request (UpdateBusLocation ''1'' 1 2) server_init) =
     server_init\<lparr>buses := [\<lparr>bus_id = ''1'', number = ''MH12AB1234'', route = ''A-B'',
       capacity = Some 40, coords = \<lparr>lat = 1, lng = 2\<rparr>\<rparr>]\<rparr>"
proof -
  have none: "registry (pubsub server_init) BUS_LOC_TOPIC = {}"
    by (simp add: server_init_def new_PubSub_def)
  from publish_without_subscribers [where st = server_init
      and rq = "UpdateBusLocation ''1'' 1 2", THEN conjunct2, THEN conjunct2] none
  have same: "pubsub (snd (handle_request (UpdateBusLocation ''1'' 1 2) server_init)) =
      pubsub server_init"
    by blast
  have "buses (snd (handle_request (UpdateBusLocation ''1'' 1 2) server_init)) =
      [\<lparr>bus_id = ''1'', number = ''MH12AB1234'', route = ''A-B'',
       capacity = Some 40, coords = \<lparr>lat = 1, lng = 2\<rparr>\<rparr>]"
    by (simp add: server_init_def buses_init_def updateBusLocation_def set_lat_def set_lng_def)
  with same none show ?thesis
    by (simp add: server.equality)
qed

text \<open>
  C5, as stated, fails for \<open>addBus\<close>: it commits a new bus and makes no \<open>publish\<close>
  call, and a client subscribed at that time is sent nothing.
\<close>

theorem addBus_no_publish_counterexample:
  "length (fst (snd (addBus ''KA01CD5678'' ''B-C'' (Some 30) buses_init))) = 2 \<and>
   snd (snd (addBus ''KA01CD5678'' ''B-C'' (Some 30) buses_init)) = [] \<and>
   sub_handle (fst (busLocationUpdated_subscribe server_init)) \<in>
     registry (pubsub (snd (busLocationUpdated_subscribe server_init))) BUS_LOC_TOPIC \<and>
   channel (pubsub (snd (handle_request (AddBus ''KA01CD5678'' ''B-C'' (Some 30))
      (snd (busLocationUpdated_subscribe server_init)))))
     (sub_handle (fst (busLocationUpdated_subscribe server_init))) = []"
  by (simp add: addBus_def buses_init_def busLocationUpdated_subscribe_def
      subscribe_eq server_init_def new_PubSub_def)

text \<open>
  C5, amended. For every id that occurs in the array, \<open>updateBusLocation\<close> and the
  \<open>/simulate-location\<close> handler each make exactly one \<open>publish\<close> call, on
  \<open>BUS_LOC_TOPIC\<close>, whose payload refers to the bus they changed; read after the call, the
  payload shows the bus with its new coordinates. \<open>addBus\<close> makes no \<open>publish\<close> call.
\<close>

theorem publish_once_per_location_change:
  assumes "ident \<in> bus_id ` set bs"
  shows "(case updateBusLocation ident la lo bs of
            (r, bs', cs) \<Rightarrow>
              \<exists>i. r = Some i \<and> cs = [Publish BUS_LOC_TOPIC (BusLocationUpdated i)] \<and>
                  observe bs' (BusLocationUpdated i) =
                    Some ((bs ! i)\<lparr>coords := \<lparr>lat = la, lng = lo\<rparr>\<rparr>)) \<and>
         (case simulate_location (Some ident) r1 r2 bs of
            (r, bs', cs) \<Rightarrow>
              \<exists>i. r = Json 200 (BusBody (bs' ! i)) \<and>
                  cs = [Publish BUS_LOC_TOPIC (BusLocationUpdated i)] \<and>
                  observe bs' (BusLocationUpdated i) =
                    Some ((bs ! i)\<lparr>coords :=
                      \<lparr>lat = lat (coords (bs ! i)) + (r1 - 0.5) * 0.001,
                       lng = lng (coords (bs ! i)) + (r2 - 0.5) * 0.001\<rparr>\<rparr>)) \<and>
         snd (snd (addBus num rte cap bs)) = []"
proof -
  from assms obtain i where found: "find_bus (\<lambda>b. bus_id b = ident) bs = Some i"
    by (rule find_bus_present)
  from find_bus_Some [OF found] have i: "i < length bs"
    by simp
  have "snd (snd (addBus num rte cap bs)) = []"
    by (simp add: addBus_def)
  with i show ?thesis
    unfolding updateBusLocation_found [OF found] simulate_location_found [OF found]
    by simp
qed

theorem publish_once_per_location_change_witness:
  "''1'' \<in> bus_id ` set buses_init \<and>
   snd (snd (updateBusLocation ''1'' 1 2 buses_init)) =
     [Publish BUS_LOC_TOPIC (BusLocationUpdated 0)] \<and>
   snd (snd (simulate_location (Some ''1'') (1/4) (3/4) buses_init)) =
     [Publish BUS_LOC_TOPIC (BusLocationUpdated 0)] \<and>
   observe (fst (snd (updateBusLocation ''1'' 1 2 buses_init))) (BusLocationUpdated 0) =
     Some \<lparr>bus_id = ''1'', number = ''MH12AB1234'', route = ''A-B'', capacity = Some 40,
           coords = \<lparr>lat = 1, lng = 2\<rparr>\<rparr>"
proof -
  have present: "''1'' \<in> bus_id ` set buses_init"
    by (simp add: buses_init_def)
  from publish_once_per_location_change [OF present, of 1 2 "1/4" "3/4"] present
  show ?thesis
    by (simp add: buses_init_def updateBusLocation_def simulate_location_def
        set_lat_def set_lng_def)
qed

text \<open>
  C6. For every id that no bus of the array has, \<open>updateBusLocation\<close> returns \<open>null\<close>
  and the \<open>/simulate-location\<close> handler answers 404 with \<open>bus not found\<close>; neither
  makes a \<open>publish\<close> call, and the whole server state (the array and every channel) is as
  before. A request whose \<open>req.body\<close> is \<open>undefined\<close> makes the handler throw before it
  writes or publishes anything.
\<close>

theorem missing_id_no_broadcast:
  assumes "ident \<notin> bus_id ` set (buses st)"
  shows "updateBusLocation ident la lo (buses st) = (None, buses st, []) \<and>
         simulate_location (Some ident) r1 r2 (buses st) =
           (Json 404 (ErrorBody ''bus not found''), buses st, []) \<and>
         simulate_location None r1 r2 (buses st) = (Thrown TypeError, buses st, []) \<and>
         handle_request (UpdateBusLocation ident la lo) st = (BusReply None, st) \<and>
         handle_request (SimulateLocation (Some ident) r1 r2) st =
           (HttpReply (Json 404 (ErrorBody ''bus not found'')), st)"
proof -
  from assms have none: "find_bus (\<lambda>b. bus_id b = ident) (buses st) = None"
    by (rule find_bus_absent)
  show ?thesis
    by (simp add: updateBusLocation_missing [OF none] simulate_location_missing [OF none]
        simulate_location_no_body)
qed

theorem missing_id_no_broadcast_witness:
  "''7'' \<notin> bus_id ` set (buses server_init) \<and>
   handle_request (UpdateBusLocation ''7'' 1 2) server_init = (BusReply None, server_init) \<and>
   handle_request (SimulateLocation (Some ''7'') (1/4) (3/4)) server_init =
     (HttpReply (Json 404 (ErrorBody ''bus not found'')), server_init)"
proof -
  have absent: "''7'' \<notin> bus_id ` set (buses server_init)"
    by (simp add: server_init_def buses_init_def)
  from missing_id_no_broadcast [OF absent, of 1 2 "1/4" "3/4"] absent show ?thesis
    by simp
qed

text \<open>
  C7, as stated, fails: the payload is the bus object itself. After two updates of bus
  \<open>1\<close>, to (1, 1) and then to (2, 2), a subscriber that drains its channel is sent the
  coordinates (2, 2) for both events, although the bus was at (1, 1) when the first was
  published.
\<close>

theorem payload_aliases_bus_counterexample:
  "buses after_first_update ! 0 =
     \<lparr>bus_id = ''1'', number = ''MH12AB1234'', route = ''A-B'', capacity = Some 40,
      coords = \<lparr>lat = 1, lng = 1\<rparr>\<rparr> \<and>
   channel (pubsub after_first_update) (sub_handle two_updates_sub) = [BusLocationUpdated 0] \<and>
   fst (forward two_updates_sub after_second_update) =
     [Some \<lparr>bus_id = ''1'', number = ''MH12AB1234'', route = ''A-B'', capacity = Some 40,
            coords = \<lparr>lat = 2, lng = 2\<rparr>\<rparr>,
      Some \<lparr>bus_id = ''1'', number = ''MH12AB1234'', route = ''A-B'', capacity = Some 40,
            coords = \<lparr>lat = 2, lng = 2\<rparr>\<rparr>] \<and>
   fst (forward two_updates_sub after_second_update) ! 0 \<noteq> Some (buses after_first_update ! 0)"
  by (simp add: after_second_update_def after_first_update_def two_updates_sub_def
      busLocationUpdated_subscribe_def subscribe_eq server_init_def new_PubSub_def
      buses_init_def updateBusLocation_def set_lat_def set_lng_def forward_eq channel_publish)

text \<open>
  C7, amended. An event refers to the live bus object: for an event published by a request
  that writes to the bus with a given id, a subscriber registered at that time is sent,
  when its channel is forwarded after any further requests, the state of that bus at the
  time of forwarding. That is the state at the time of the \<open>publish\<close> call whenever none
  of the further requests writes to the bus with that id.
\<close>

theorem event_read_at_drain:
  assumes sub: "sub_handle s \<in> registry (pubsub st) BUS_LOC_TOPIC"
    and found: "find_bus (\<lambda>b. bus_id b = ident) (buses st) = Some i"
    and rq0: "targets ident rq0"
  shows "let st1 = snd (handle_request rq0 st);
             st2 = run rqs st1;
             k = length (channel (pubsub st) (sub_handle s))
         in k < length (fst (forward s st2)) \<and>
            fst (forward s st2) ! k = Some (buses st2 ! i) \<and>
            ((\<forall>rq \<in> set rqs. \<not> targets ident rq) \<longrightarrow>
               fst (forward s st2) ! k = Some (buses st1 ! i))"
proof -
  define st1 where "st1 = snd (handle_request rq0 st)"
  define st2 where "st2 = run rqs st1"
  define h where "h = sub_handle s"
  define k where "k = length (channel (pubsub st) h)"
  from find_bus_Some [OF found] have i: "i < length (buses st)"
    by simp
  from targeted_request [OF found rq0]
  have st1: "pubsub st1 = publish BUS_LOC_TOPIC (BusLocationUpdated i) (pubsub st)"
    "length (buses st1) = length (buses st)" "bus_id (buses st1 ! i) = ident"
    by (simp_all add: st1_def)
  from st1(1) sub have ch1: "channel (pubsub st1) h = channel (pubsub st) h @ [BusLocationUpdated i]"
    by (simp add: channel_publish h_def)
  from run_extends [of rqs st1 h] obtain more
    where "channel (pubsub st2) h = channel (pubsub st1) h @ more"
    by (auto simp: st2_def)
  with ch1 have ch2: "channel (pubsub st2) h = channel (pubsub st) h @ BusLocationUpdated i # more"
    by simp
  then have k: "k < length (channel (pubsub st2) h)" "channel (pubsub st2) h ! k = BusLocationUpdated i"
    by (simp_all add: k_def)
  from run_length [of st1 rqs] st1(2) i have i2: "i < length (buses st2)"
    by (simp add: st2_def)
  from k i2 have seen: "fst (forward s st2) ! k = Some (buses st2 ! i)"
    by (simp add: forward_eq h_def [symmetric])
  from k(1) have len: "k < length (fst (forward s st2))"
    by (simp add: forward_eq h_def [symmetric])
  have quiet: "fst (forward s st2) ! k = Some (buses st1 ! i)"
    if "\<forall>rq \<in> set rqs. \<not> targets ident rq"
  proof -
    from that st1(3) have "\<forall>rq \<in> set rqs. \<not> targets (bus_id (buses st1 ! i)) rq"
      by simp
    from untargeted_run [OF _ this] st1(2) i have "buses st2 ! i = buses st1 ! i"
      by (simp add: st2_def)
    with seen show ?thesis by simp
  qed
  from len seen quiet show ?thesis
    unfolding Let_def st1_def [symmetric] st2_def [symmetric] h_def [symmetric] k_def [symmetric]
    by blast
qed

theorem event_read_at_drain_witness:
  "sub_handle two_updates_sub \<in>
     registry (pubsub (snd (busLocationUpdated_subscribe server_init))) BUS_LOC_TOPIC \<and>
   find_bus (\<lambda>b. bus_id b = ''1'') (buses (snd (busLocationUpdated_subscribe server_init))) = Some 0 \<and>
   fst (forward two_updates_sub
     (run [AddBus ''KA01CD5678'' ''B-C'' (Some 30), UpdateBusLocation ''2'' 5 6]
       after_first_update)) ! 0 =
     Some \<lparr>bus_id = ''1'', number = ''MH12AB1234'', route = ''A-B'', capacity = Some 40,
           coords = \<lparr>lat = 1, lng = 1\<rparr>\<rparr>"
proof -
  let ?st = "snd (busLocationUpdated_subscribe server_init)"
  let ?rqs = "[AddBus ''KA01CD5678'' ''B-C'' (Some 30), UpdateBusLocation ''2'' 5 6]"
  have sub: "sub_handle two_updates_sub \<in> registry (pubsub ?st) BUS_LOC_TOPIC"
    by (simp add: two_updates_sub_def busLocationUpdated_subscribe_def subscribe_eq)
  have found: "find_bus (\<lambda>b. bus_id b = ''1'') (buses ?st) = Some 0"
    by (simp add: busLocationUpdated_subscribe_def subscribe_eq server_init_def buses_init_def)
  have rq0: "targets ''1'' (UpdateBusLocation ''1'' 1 1)"
    by simp
  have quiet: "\<forall>rq \<in> set ?rqs. \<not> targets ''1'' rq"
    by simp
  have k: "length (channel (pubsub ?st) (sub_handle two_updates_sub)) = 0"
    by (simp add: two_updates_sub_def busLocationUpdated_subscribe_def subscribe_eq
        server_init_def new_PubSub_def)
  have b: "buses after_first_update ! 0 =
     \<lparr>bus_id = ''1'', number = ''MH12AB1234'', route = ''A-B'', capacity = Some 40,
      coords = \<lparr>lat = 1, lng = 1\<rparr>\<rparr>"
    by (simp add: after_first_update_def busLocationUpdated_subscribe_def subscribe_eq
        server_init_def buses_init_def updateBusLocation_def set_lat_def set_lng_def)
  from event_read_at_drain [OF sub found rq0, of ?rqs] quiet
  have "fst (forward two_updates_sub (run ?rqs after_first_update)) ! 0 =
      Some (buses after_first_update ! 0)"
    unfolding Let_def k after_first_update_def [symmetric] by blast
  with b sub found show ?thesis
    by simp
qed

text \<open>
  C8. For every array of buses and every id that occurs in it, \<open>updateBusLocation\<close>
  returns the first bus with that id, sets the two coordinates of that bus to the given
  values and changes nothing else: the bus keeps its id, number, route and capacity, every
  other bus is as before, and the array has the same length.
\<close>

theorem updateBusLocation_frame:
  assumes "ident \<in> bus_id ` set bs"
  shows "case updateBusLocation ident la lo bs of
           (r, bs', cs) \<Rightarrow>
             \<exists>i. r = Some i \<and> i < length bs \<and> bus_id (bs ! i) = ident \<and>
                 (\<forall>j < i. bus_id (bs ! j) \<noteq> ident) \<and>
                 coords (bs' ! i) = \<lparr>lat = la, lng = lo\<rparr> \<and>
                 bus_id (bs' ! i) = bus_id (bs ! i) \<and>
                 number (bs' ! i) = number (bs ! i) \<and>
                 route (bs' ! i) = route (bs ! i) \<and>
                 capacity (bs' ! i) = capacity (bs ! i) \<and>
                 (\<forall>j < length bs. j \<noteq> i \<longrightarrow> bs' ! j = bs ! j) \<and>
                 length bs' = length bs"
proof -
  from assms obtain i where found: "find_bus (\<lambda>b. bus_id b = ident) bs = Some i"
    by (rule find_bus_present)
  from find_bus_Some [OF found]
  have i: "i < length bs" "bus_id (bs ! i) = ident" "\<forall>j < i. bus_id (bs ! j) \<noteq> ident"
    by simp_all
  show ?thesis
    unfolding updateBusLocation_found [OF found] using i by simp
qed

theorem updateBusLocation_frame_witness:
  "''1'' \<in> bus_id ` set buses_init \<and>
   fst (updateBusLocation ''1'' 1 2 buses_init) = Some 0 \<and>
   fst (snd (updateBusLocation ''1'' 1 2 buses_init)) =
     [\<lparr>bus_id = ''1'', number = ''MH12AB1234'', route = ''A-B'', capacity = Some 40,
       coords = \<lparr>lat = 1, lng = 2\<rparr>\<rparr>]"
  using updateBusLocation_frame [of "''1''" buses_init 1 2]
  by (simp add: buses_init_def updateBusLocation_def set_lat_def set_lng_def)

text \<open>
  C9. \<open>addBus\<close> appends exactly one bus, whose id is the decimal string of the new length
  of the array and whose coordinates are 0 and 0, returns that bus and leaves the buses
  that were there as they were. From the initial array, after any sequence of requests to
  the mutation entry points, the ids of the buses are pairwise distinct.
\<close>

theorem addBus_appends_fresh_id:
  "(case addBus num rte cap bs of
      (i, bs', cs) \<Rightarrow>
        bs' = bs @ [\<lparr>bus_id = String_nat (length bs'), number = num, route = rte,
                      capacity = cap, coords = \<lparr>lat = 0, lng = 0\<rparr>\<rparr>] \<and>
        i = length bs \<and>
        decimal_val (bus_id (bs' ! i)) = length bs') \<and>
   distinct (map bus_id (buses (run rqs server_init)))"
proof -
  have "distinct (map bus_id (buses (run rqs server_init)))"
    by (rule ids_numbered_distinct) (rule run_ids_numbered [OF ids_numbered_init])
  then show ?thesis
    by (simp add: addBus_def decimal_val_String_nat)
qed

theorem addBus_appends_fresh_id_witness:
  "fst (snd (addBus ''KA01CD5678'' ''B-C'' (Some 30) buses_init)) =
     buses_init @ [\<lparr>bus_id = ''2'', number = ''KA01CD5678'', route = ''B-C'',
                    capacity = Some 30, coords = \<lparr>lat = 0, lng = 0\<rparr>\<rparr>] \<and>
   distinct (map bus_id (buses (run [AddBus ''KA01CD5678'' ''B-C'' (Some 30),
       UpdateBusLocation ''2'' 5 6, AddBus ''X'' ''Y'' None] server_init)))"
proof -
  have appended: "fst (snd (addBus ''KA01CD5678'' ''B-C'' (Some 30) buses_init)) =
     buses_init @ [\<lparr>bus_id = ''2'', number = ''KA01CD5678'', route = ''B-C'',
                    capacity = Some 30, coords = \<lparr>lat = 0, lng = 0\<rparr>\<rparr>]"
    by (simp add: addBus_def buses_init_def String_nat.simps digit_char_def)
  from addBus_appends_fresh_id [where rqs = "[AddBus ''KA01CD5678'' ''B-C'' (Some 30),
       UpdateBusLocation ''2'' 5 6, AddBus ''X'' ''Y'' None]"]
  have "distinct (map bus_id (buses (run [AddBus ''KA01CD5678'' ''B-C'' (Some 30),
       UpdateBusLocation ''2'' 5 6, AddBus ''X'' ''Y'' None] server_init)))"
    by (rule conjunct2)
  with appended show ?thesis
    by (rule conjI)
qed

text \<open>
  C10. When the record store answers the POST, \<open>addReview\<close> throws exactly when the status
  of the answer is neither 200 nor 201, and otherwise returns the review of the answer's
  body. Whatever \<open>fetch\<close> does, \<open>addReview\<close> makes no \<open>publish\<close> call and leaves the
  server state as it was.
\<close>

theorem addReview_throws_iff:
  "(fetch (reviews_post \<lparr>name = nm, message = msg, timestamp = now\<rparr>) = Resolved r \<longrightarrow>
      ((\<exists>e. fst (addReview fetch now nm msg) = Inl e) \<longleftrightarrow> (status r \<noteq> 200 \<and> status r \<noteq> 201)) \<and>
      (status r = 200 \<or> status r = 201 \<longrightarrow> fst (addReview fetch now nm msg) = Inr (json r))) \<and>
   snd (addReview fetch now nm msg) = [] \<and>
   snd (handle_request (AddReview answer now nm msg) st) = st"
  by (auto simp: addReview_def split: fetch_outcome.splits)

theorem addReview_throws_iff_witness:
  "fst (addReview (\<lambda>_. Resolved \<lparr>status = 201,
        json = \<lparr>name = ''A'', message = ''ok'', timestamp = 5, review_id = ''1''\<rparr>\<rparr>) 5 ''A'' ''ok'') =
     Inr \<lparr>name = ''A'', message = ''ok'', timestamp = 5, review_id = ''1''\<rparr> \<and>
   (\<exists>e. fst (addReview (\<lambda>_. Resolved \<lparr>status = 404,
        json = \<lparr>name = [], message = [], timestamp = 0, review_id = []\<rparr>\<rparr>) 5 ''A'' ''ok'') = Inl e) \<and>
   snd (addReview (\<lambda>_. Rejected) 5 ''A'' ''ok'') = []"
  using addReview_throws_iff [of "\<lambda>_. Resolved \<lparr>status = 201,
        json = \<lparr>name = ''A'', message = ''ok'', timestamp = 5, review_id = ''1''\<rparr>\<rparr>" "''A''" "''ok''" 5
        "\<lparr>status = 201, json = \<lparr>name = ''A'', message = ''ok'', timestamp = 5, review_id = ''1''\<rparr>\<rparr>"]
    addReview_throws_iff [of "\<lambda>_. Resolved \<lparr>status = 404,
        json = \<lparr>name = [], message = [], timestamp = 0, review_id = []\<rparr>\<rparr>" "''A''" "''ok''" 5
        "\<lparr>status = 404, json = \<lparr>name = [], message = [], timestamp = 0, review_id = []\<rparr>\<rparr>"]
    addReview_throws_iff [of "\<lambda>_. Rejected" "''A''" "''ok''" 5]
  by simp

end
